theory Spec2Isabelle
  imports Main "HOL-Library.Multiset"
begin

section \<open>Python strings\<close>

text \<open>
  The core of RekaKata: the input validator, the injector of trending elements and the
  parser of the generated response, each function translated from its Python source.

  A Python \<open>str\<close> is modelled as a \<open>string\<close>: a list of characters, each one
  code point below 256 (Latin-1), so \<open>length\<close> is Python's \<open>len\<close>. White space is
  what \<open>str.isspace\<close> and the class \<open>\s\<close> accept below 256.

  \<open>lower\<close> is \<open>str.lower\<close>: below 256 it converts A to Z and the capital letters of
  Latin-1, U+00C0 to U+00DE without the multiplication sign U+00D7, each to the letter
  32 code points above it. \<open>upper\<close> is \<open>str.upper\<close>: it converts a to z and the
  small letters U+00E0 to U+00FE without the division sign U+00F7, each to the letter 32
  code points below it; the sharp s U+00DF becomes the two letters SS, and the micro sign
  U+00B5 and the y with diaeresis U+00FF become U+039C and U+0178, which lie above 255.
  So \<open>upper\<close> returns a list of code points, and \<open>code_points\<close> gives those of a
  string to compare with.
\<close>

definition isspace :: "char \<Rightarrow> bool" where
  "isspace c = (c \<in> set [CHR 0x09, CHR 0x0A, CHR 0x0B, CHR 0x0C, CHR 0x0D, CHR 0x1C,
     CHR 0x1D, CHR 0x1E, CHR 0x1F, CHR 0x20, CHR 0x85, CHR 0xA0])"

definition latin1_capitals :: string where
  "latin1_capitals =
     [CHR 0xC0, CHR 0xC1, CHR 0xC2, CHR 0xC3, CHR 0xC4, CHR 0xC5, CHR 0xC6,
      CHR 0xC7, CHR 0xC8, CHR 0xC9, CHR 0xCA, CHR 0xCB, CHR 0xCC, CHR 0xCD,
      CHR 0xCE, CHR 0xCF, CHR 0xD0, CHR 0xD1, CHR 0xD2, CHR 0xD3, CHR 0xD4,
      CHR 0xD5, CHR 0xD6, CHR 0xD8, CHR 0xD9, CHR 0xDA, CHR 0xDB, CHR 0xDC,
      CHR 0xDD, CHR 0xDE]"

definition latin1_smalls :: string where
  "latin1_smalls =
     [CHR 0xE0, CHR 0xE1, CHR 0xE2, CHR 0xE3, CHR 0xE4, CHR 0xE5, CHR 0xE6,
      CHR 0xE7, CHR 0xE8, CHR 0xE9, CHR 0xEA, CHR 0xEB, CHR 0xEC, CHR 0xED,
      CHR 0xEE, CHR 0xEF, CHR 0xF0, CHR 0xF1, CHR 0xF2, CHR 0xF3, CHR 0xF4,
      CHR 0xF5, CHR 0xF6, CHR 0xF8, CHR 0xF9, CHR 0xFA, CHR 0xFB, CHR 0xFC,
      CHR 0xFD, CHR 0xFE]"

definition lower_ch :: "char \<Rightarrow> char" where
  "lower_ch c =
     (case map_of (zip (''ABCDEFGHIJKLMNOPQRSTUVWXYZ'' @ latin1_capitals)
                       (''abcdefghijklmnopqrstuvwxyz'' @ latin1_smalls)) c
      of Some l \<Rightarrow> l | None \<Rightarrow> c)"

definition lower :: "string \<Rightarrow> string" where
  "lower s = map lower_ch s"

definition upper_ch :: "char \<Rightarrow> nat list" where
  "upper_ch c =
     (let n = of_char c in
      if n = 0xB5 then [0x39C]
      else if n = 0xDF then [0x53, 0x53]
      else if n = 0xFF then [0x178]
      else if (0x61 \<le> n \<and> n \<le> 0x7A) \<or> (0xE0 \<le> n \<and> n \<le> 0xFE \<and> n \<noteq> 0xF7)
      then [n - 0x20]
      else [n])"

definition upper :: "string \<Rightarrow> nat list" where
  "upper s = concat (map upper_ch s)"

definition code_points :: "string \<Rightarrow> nat list" where
  "code_points s = map of_char s"

fun startswith :: "'a list \<Rightarrow> 'a list \<Rightarrow> bool" where
  "startswith s [] = True"
| "startswith [] (p # ps) = False"
| "startswith (c # cs) (p # ps) = (c = p \<and> startswith cs ps)"

fun contains :: "'a list \<Rightarrow> 'a list \<Rightarrow> bool" where
  "contains [] sub = (sub = [])"
| "contains (c # cs) sub = (startswith (c # cs) sub \<or> contains cs sub)"

fun split_by :: "(char \<Rightarrow> bool) \<Rightarrow> string \<Rightarrow> string list" where
  "split_by sep [] = [[]]"
| "split_by sep (c # cs) =
     (if sep c then [] # split_by sep cs
      else (case split_by sep cs of [] \<Rightarrow> [[c]] | w # ws \<Rightarrow> (c # w) # ws))"

definition split_on :: "char \<Rightarrow> string \<Rightarrow> string list" where
  "split_on sep s = split_by (\<lambda>c. c = sep) s"

definition split_ws :: "string \<Rightarrow> string list" where
  "split_ws s = filter (\<lambda>w. w \<noteq> []) (split_by isspace s)"

fun join :: "string \<Rightarrow> string list \<Rightarrow> string" where
  "join sep [] = []"
| "join sep [x] = x"
| "join sep (x # y # ys) = x @ sep @ join sep (y # ys)"

definition strip_chars :: "string \<Rightarrow> string \<Rightarrow> string" where
  "strip_chars chars s =
     rev (dropWhile (\<lambda>c. c \<in> set chars) (rev (dropWhile (\<lambda>c. c \<in> set chars) s)))"

definition strip :: "string \<Rightarrow> string" where
  "strip s = rev (dropWhile isspace (rev (dropWhile isspace s)))"

function replace :: "string \<Rightarrow> string \<Rightarrow> string \<Rightarrow> string" where
  "replace [] old new = (if old = [] then new else [])"
| "replace (c # cs) old new =
     (if old = [] then new @ c # replace cs old new
      else if startswith (c # cs) old then new @ replace (drop (length old) (c # cs)) old new
      else c # replace cs old new)"
  by pat_completeness auto
termination
  by (relation "measure (\<lambda>(s, old, new). length s)") (auto simp: neq_Nil_conv)


section \<open>Regular expressions\<close>

text \<open>
  The part of Python's \<open>re\<close> that the patterns of the source use, as a backtracking
  matcher: alternatives are tried left to right, a greedy quantifier tries the longer
  match first, a lazy one the shorter, and the first success is the match. A quantifier
  ranges over single characters, as every quantifier of the source does. The flag is
  \<open>re.IGNORECASE\<close>, under which two characters below 256 match when their lower
  cases are equal; \<open>AnyChar\<close> is the dot under \<open>re.DOTALL\<close>. The source never
  sets \<open>re.MULTILINE\<close>, so \<open>Bol\<close> (\<open>^\<close>) holds at the start of the text only and
  \<open>Eol\<close> (\<open>$\<close>) at its end or before a newline that ends it. \<open>WordCh\<close> is \<open>\w\<close>,
  \<open>NotChr c\<close> is \<open>[^c]\<close>, \<open>Ahead\<close> is \<open>(?=...)\<close> and \<open>Group\<close> is group 1.
\<close>

definition isword :: "char \<Rightarrow> bool" where
  "isword c = (let n = (of_char c :: nat) in
     (48 \<le> n \<and> n \<le> 57) \<or> (65 \<le> n \<and> n \<le> 90) \<or> n = 95 \<or> (97 \<le> n \<and> n \<le> 122) \<or>
     n = 170 \<or> n = 178 \<or> n = 179 \<or> n = 181 \<or> n = 185 \<or> n = 186 \<or>
     (188 \<le> n \<and> n \<le> 190) \<or> (192 \<le> n \<and> n \<le> 214) \<or> (216 \<le> n \<and> n \<le> 246) \<or>
     248 \<le> n)"

datatype atom = Chr char | AnyChar | Space | WordCh | NotChr char

datatype regex =
    Eps
  | Atom atom
  | Bol
  | Eol
  | Seq regex regex
  | Alt regex regex
  | Opt regex
  | Star atom
  | Plus atom
  | LazyStar atom
  | Group regex
  | Ahead regex

text \<open>
  A matcher state: whether the position is the start of the text, the text still to
  read, and what group 1 captured.
\<close>

type_synonym mstate = "bool \<times> string \<times> string option"

fun atom_ok :: "bool \<Rightarrow> atom \<Rightarrow> char \<Rightarrow> bool" where
  "atom_ok ic (Chr p) c = (if ic then lower_ch c = lower_ch p else c = p)"
| "atom_ok ic AnyChar c = True"
| "atom_ok ic Space c = isspace c"
| "atom_ok ic WordCh c = isword c"
| "atom_ok ic (NotChr p) c = (c \<noteq> p)"

fun star_greedy :: "bool \<Rightarrow> atom \<Rightarrow> mstate \<Rightarrow> (mstate \<Rightarrow> mstate option) \<Rightarrow> mstate option" where
  "star_greedy ic a (b, [], g) k = k (b, [], g)"
| "star_greedy ic a (b, c # cs, g) k =
     (if atom_ok ic a c
      then (case star_greedy ic a (False, cs, g) k of
              Some m \<Rightarrow> Some m
            | None \<Rightarrow> k (b, c # cs, g))
      else k (b, c # cs, g))"

fun star_lazy :: "bool \<Rightarrow> atom \<Rightarrow> mstate \<Rightarrow> (mstate \<Rightarrow> mstate option) \<Rightarrow> mstate option" where
  "star_lazy ic a (b, [], g) k = k (b, [], g)"
| "star_lazy ic a (b, c # cs, g) k =
     (case k (b, c # cs, g) of
        Some m \<Rightarrow> Some m
      | None \<Rightarrow> if atom_ok ic a c then star_lazy ic a (False, cs, g) k else None)"

fun bt :: "bool \<Rightarrow> regex \<Rightarrow> mstate \<Rightarrow> (mstate \<Rightarrow> mstate option) \<Rightarrow> mstate option" where
  "bt ic Eps st k = k st"
| "bt ic (Atom a) (b, [], g) k = None"
| "bt ic (Atom a) (b, c # cs, g) k = (if atom_ok ic a c then k (False, cs, g) else None)"
| "bt ic Bol (b, s, g) k = (if b then k (b, s, g) else None)"
| "bt ic Eol (b, s, g) k = (if s = [] \<or> s = [CHR 0x0A] then k (b, s, g) else None)"
| "bt ic (Seq r1 r2) st k = bt ic r1 st (\<lambda>st'. bt ic r2 st' k)"
| "bt ic (Alt r1 r2) st k = (case bt ic r1 st k of Some m \<Rightarrow> Some m | None \<Rightarrow> bt ic r2 st k)"
| "bt ic (Opt r) st k = (case bt ic r st k of Some m \<Rightarrow> Some m | None \<Rightarrow> k st)"
| "bt ic (Star a) st k = star_greedy ic a st k"
| "bt ic (Plus a) (b, [], g) k = None"
| "bt ic (Plus a) (b, c # cs, g) k =
     (if atom_ok ic a c then star_greedy ic a (False, cs, g) k else None)"
| "bt ic (LazyStar a) st k = star_lazy ic a st k"
| "bt ic (Group r) (b, s, g) k =
     bt ic r (b, s, g) (\<lambda>(b', s', g'). k (b', s', Some (take (length s - length s') s)))"
| "bt ic (Ahead r) st k = (case bt ic r st Some of Some m \<Rightarrow> k st | None \<Rightarrow> None)"

definition lit :: "string \<Rightarrow> regex" where
  "lit s = foldr (\<lambda>c r. Seq (Atom (Chr c)) r) s Eps"

definition seqs :: "regex list \<Rightarrow> regex" where
  "seqs rs = foldr Seq rs Eps"

definition alts :: "regex \<Rightarrow> regex list \<Rightarrow> regex" where
  "alts r rs = foldl Alt r rs"

text \<open>\<open>re.search\<close>: the match at the leftmost position that has one.\<close>

fun search_at :: "bool \<Rightarrow> regex \<Rightarrow> bool \<Rightarrow> string \<Rightarrow> mstate option" where
  "search_at ic r b [] = bt ic r (b, [], None) Some"
| "search_at ic r b (c # cs) =
     (case bt ic r (b, c # cs, None) Some of
        Some m \<Rightarrow> Some m
      | None \<Rightarrow> search_at ic r False cs)"

definition re_search :: "bool \<Rightarrow> regex \<Rightarrow> string \<Rightarrow> mstate option" where
  "re_search ic r s = search_at ic r True s"


text \<open>
  \<open>re.sub(pattern, "", s)\<close>: every match, found left to right, is deleted. An empty
  match deletes nothing, and the scan moves on by one character.
\<close>

function sub_at :: "bool \<Rightarrow> regex \<Rightarrow> bool \<Rightarrow> string \<Rightarrow> string" where
  "sub_at ic r b [] = []"
| "sub_at ic r b (c # cs) =
     (case bt ic r (b, c # cs, None) Some of
        Some (b', s', g') \<Rightarrow>
          if length s' < length (c # cs) then sub_at ic r False s'
          else c # sub_at ic r False cs
      | None \<Rightarrow> c # sub_at ic r False cs)"
  by pat_completeness auto
termination
  by (relation "measure (\<lambda>(ic, r, b, s). length s)") auto

definition re_sub_empty :: "bool \<Rightarrow> regex \<Rightarrow> string \<Rightarrow> string" where
  "re_sub_empty ic r s = sub_at ic r True s"

text \<open>
  \<open>re.findall\<close> for a pattern without groups: the matched texts, left to right. After
  an empty match the scan moves on by one character.
\<close>

function findall_at :: "bool \<Rightarrow> regex \<Rightarrow> bool \<Rightarrow> string \<Rightarrow> string list" where
  "findall_at ic r b [] = (case bt ic r (b, [], None) Some of Some m \<Rightarrow> [[]] | None \<Rightarrow> [])"
| "findall_at ic r b (c # cs) =
     (case bt ic r (b, c # cs, None) Some of
        Some (b', s', g') \<Rightarrow>
          if length s' < length (c # cs)
          then take (length (c # cs) - length s') (c # cs) # findall_at ic r False s'
          else [] # findall_at ic r False cs
      | None \<Rightarrow> findall_at ic r False cs)"
  by pat_completeness auto
termination
  by (relation "measure (\<lambda>(ic, r, b, s). length s)") auto

definition re_findall :: "bool \<Rightarrow> regex \<Rightarrow> string \<Rightarrow> string list" where
  "re_findall ic r s = findall_at ic r True s"

section \<open>InputValidator (src/core/input\_validator.py)\<close>

definition min_length :: nat where
  "min_length = 5"

definition max_length :: nat where
  "max_length = 2000"

text \<open>The patterns of \<open>_sanitize\<close>: \<open><[^>]+>\<close>, \<open>javascript:\<close>,
  \<open>on\w+\s*=\<close> and \<open>data:text/html\<close>.\<close>

definition tag_pattern :: regex where
  "tag_pattern = seqs [Atom (Chr CHR ''<''), Plus (NotChr CHR ''>''), Atom (Chr CHR ''>'')]"

definition dangerous_patterns :: "regex list" where
  "dangerous_patterns =
     [lit ''javascript:'',
      seqs [lit ''on'', Plus WordCh, Star Space, Atom (Chr CHR ''='')],
      lit ''data:text/html'']"

definition sanitize :: "string \<Rightarrow> string" where
  "sanitize text =
     (let sanitized = join '' '' (split_ws text);
          sanitized = re_sub_empty False tag_pattern sanitized;
          sanitized = foldl (\<lambda>s pattern. re_sub_empty True pattern s) sanitized dangerous_patterns
      in strip sanitized)"

definition validate_length :: "string \<Rightarrow> bool" where
  "validate_length text = (min_length \<le> length text \<and> length text \<le> max_length)"

text \<open>
  \<open>langdetect.detect\<close> is a library outside the repository: the model takes it as a
  parameter, \<open>None\<close> standing for its \<open>LangDetectException\<close>.
\<close>

definition detect_language :: "(string \<Rightarrow> string option) \<Rightarrow> string \<Rightarrow> string" where
  "detect_language detect text = (case detect text of Some lang \<Rightarrow> lang | None \<Rightarrow> ''en'')"

text \<open>
  Each keyword of the extractors is an alternation of words. \<open>list(set(...))\<close> leaves
  the order of the result open, so the model returns the set.
\<close>

definition keyword :: "string list \<Rightarrow> regex" where
  "keyword ws = (case ws of [] \<Rightarrow> Eps | w # rest \<Rightarrow> alts (lit w) (map lit rest))"

definition extract_keywords :: "string list list \<Rightarrow> string \<Rightarrow> string set" where
  "extract_keywords keywords text =
     set (concat (map (\<lambda>ws. re_findall False (keyword ws) (lower text)) keywords))"

definition product_keywords :: "string list list" where
  "product_keywords =
     [[''skincare''], [''makeup''], [''clothing'', ''pakaian'', ''baju''], [''food'', ''makanan''],
      [''drink'', ''minuman''], [''gadget''], [''phone'', ''handphone'', ''hp''],
      [''shoes'', ''sepatu''], [''bag'', ''tas''], [''book'', ''buku'']]"

definition topic_keywords :: "string list list" where
  "topic_keywords =
     [[''review''], [''tutorial''], [''tips''], [''vlog''], [''challenge''], [''reaction''],
      [''unboxing''], [''testimoni'', ''testimoni'', ''review''],
      [''promosi'', ''promosi'', ''promo'']]"

definition emotion_keywords :: "string list list" where
  "emotion_keywords =
     [[''excited'', ''exciting'', ''seru''], [''happy'', ''joyful'', ''bahagia'', ''senang''],
      [''sad'', ''sadness'', ''sedih''], [''angry'', ''furious'', ''marah''],
      [''funny'', ''humorous'', ''lucu''],
      [''inspiring'', ''motivational'', ''inspiratif'', ''motivasi''],
      [''calm'', ''peaceful'', ''tenang''], [''energetic'', ''energetic'']]"

definition audience_keywords :: "string list list" where
  "audience_keywords =
     [[''teen'', ''teens'', ''remaja''], [''kids'', ''children'', ''anak-anak''],
      [''adult'', ''adults'', ''dewasa''],
      [''student'', ''students'', ''mahasiswa'', ''pelajar''],
      [''mom'', ''mother'', ''moms'', ''ibu''], [''professionals'', ''profesional''],
      [''gamer'', ''gamers'']]"

record entity_sets =
  ent_products :: "string set"
  ent_topics :: "string set"
  ent_emotions :: "string set"
  ent_target_audience :: "string set"

definition extract_entities :: "string \<Rightarrow> entity_sets" where
  "extract_entities text =
     \<lparr>ent_products = extract_keywords product_keywords text,
      ent_topics = extract_keywords topic_keywords text,
      ent_emotions = extract_keywords emotion_keywords text,
      ent_target_audience = extract_keywords audience_keywords text\<rparr>"

text \<open>The values of the dictionary that \<open>validate\<close> returns, and decimal numerals
  for its message.\<close>

datatype pyval = PBool bool | PStr string | PInt nat | PEntities entity_sets

function str_of_nat :: "nat \<Rightarrow> string" where
  "str_of_nat n =
     (if n < 10 then [''0123456789'' ! n]
      else str_of_nat (n div 10) @ [''0123456789'' ! (n mod 10)])"
  by pat_completeness auto
termination
  by (relation "measure id") auto

declare str_of_nat.simps [simp del]

definition validate :: "(string \<Rightarrow> string option) \<Rightarrow> string \<Rightarrow> (string \<times> pyval) list" where
  "validate detect text =
     (let sanitized = sanitize text in
      if \<not> validate_length sanitized then
        [(''valid'', PBool False),
         (''error'', PStr (''Input must be between '' @ str_of_nat min_length @ '' and '' @
                          str_of_nat max_length @ '' characters'')),
         (''sanitized'', PStr sanitized)]
      else
        [(''valid'', PBool True),
         (''sanitized'', PStr sanitized),
         (''language'', PStr (detect_language detect sanitized)),
         (''entities'', PEntities (extract_entities sanitized)),
         (''length'', PInt (length sanitized))])"


section \<open>TrendingInjector (src/core/trending\_injector.py)\<close>

text \<open>
  The catalog is the dictionary read from the JSON document. A top-level key may be
  missing (the source reads each with \<open>get\<close> and a default), and so may the
  \<open>keywords\<close> of an entry: \<open>None\<close> stands for a missing key. The hashtags mapping
  keeps the order of its keys, as a Python dictionary does. Sound entries are passed on
  as they are, so their type is a parameter.
\<close>

datatype py_error = KeyError | IndexError | AttributeError

record format_entry =
  fmt_name :: string
  fmt_platforms :: "string list"
  fmt_keywords :: "string list option"

record style_entry =
  sty_name :: string
  sty_keywords :: "string list option"
  sty_style :: string
  sty_camera :: string

record 's catalog =
  cat_formats :: "format_entry list option"
  cat_visual_styles :: "style_entry list option"
  cat_hooks :: "string list option"
  cat_cta :: "string list option"
  cat_hashtags :: "(string \<times> string list) list option"
  cat_sounds :: "'s list option"

text \<open>\<open>d.get(key, default)\<close>, for a key that may be missing.\<close>

definition get_or :: "'a option \<Rightarrow> 'a \<Rightarrow> 'a" where
  "get_or v dflt = (case v of Some x \<Rightarrow> x | None \<Rightarrow> dflt)"

text \<open>The entities are a dictionary from category to the list of matched words.\<close>

type_synonym entities = "(string \<times> string list) list"

definition entities_get :: "entities \<Rightarrow> string \<Rightarrow> string list" where
  "entities_get entities key = get_or (map_of entities key) []"

text \<open>
  The random source is the sequence of its draws. \<open>random.choice\<close> takes the element at
  a drawn index; \<open>random.sample\<close> draws \<open>k\<close> times from the pool of elements not yet
  taken, moving the last element of the pool into the place of the one taken. CPython
  samples this way from a population of at most 21 entries when \<open>k\<close> is at most 5, as
  it is here; from a larger population it draws a position of the whole population again
  until the position is a new one, which takes \<open>k\<close> distinct positions as well.
\<close>

type_synonym rng = "nat \<Rightarrow> nat"

definition randbelow :: "nat \<Rightarrow> rng \<Rightarrow> nat \<times> rng" where
  "randbelow n g = (g 0 mod n, \<lambda>i. g (Suc i))"

definition random_choice :: "'a list \<Rightarrow> rng \<Rightarrow> 'a \<times> rng" where
  "random_choice xs g = (let (i, g') = randbelow (length xs) g in (xs ! i, g'))"

fun random_sample :: "'a list \<Rightarrow> nat \<Rightarrow> rng \<Rightarrow> 'a list \<times> rng" where
  "random_sample pool 0 g = ([], g)"
| "random_sample pool (Suc k) g =
     (let (j, g') = randbelow (length pool) g;
          (rest, g'') = random_sample (butlast (pool[j := last pool])) k g'
      in (pool ! j # rest, g''))"

text \<open>\<open>_get_matching_format\<close>: the inner loop over the topics, then the loop over the
  formats, then the random fallback.\<close>

fun format_topics_loop :: "format_entry \<Rightarrow> string list \<Rightarrow> py_error + bool" where
  "format_topics_loop format_item [] = Inr False"
| "format_topics_loop format_item (topic # topics) =
     (case fmt_keywords format_item of
        None \<Rightarrow> Inl KeyError
      | Some keywords \<Rightarrow>
          if list_ex (\<lambda>keyword. keyword \<in> set keywords) keywords then Inr True
          else format_topics_loop format_item topics)"

fun formats_loop :: "format_entry list \<Rightarrow> string list \<Rightarrow> py_error + format_entry option" where
  "formats_loop [] topics = Inr None"
| "formats_loop (format_item # formats) topics =
     (case format_topics_loop format_item topics of
        Inl e \<Rightarrow> Inl e
      | Inr True \<Rightarrow> Inr (Some format_item)
      | Inr False \<Rightarrow> formats_loop formats topics)"

definition get_matching_format ::
  "'s catalog \<Rightarrow> entities \<Rightarrow> rng \<Rightarrow> py_error + (format_entry option \<times> rng)" where
  "get_matching_format data entities g =
     (let formats = get_or (cat_formats data) [];
          topics = entities_get entities ''topics''
      in case formats_loop formats topics of
           Inl e \<Rightarrow> Inl e
         | Inr (Some format_item) \<Rightarrow> Inr (Some format_item, g)
         | Inr None \<Rightarrow>
             if formats \<noteq> [] then (let (f, g') = random_choice formats g in Inr (Some f, g'))
             else Inr (None, g))"

fun styles_loop :: "style_entry list \<Rightarrow> string list \<Rightarrow> style_entry option" where
  "styles_loop [] all_keywords = None"
| "styles_loop (style # styles) all_keywords =
     (let style_keywords = get_or (sty_keywords style) [] in
      if list_ex (\<lambda>keyword. contains (join '' '' all_keywords) keyword) style_keywords
      then Some style
      else styles_loop styles all_keywords)"

definition get_visual_style :: "'s catalog \<Rightarrow> entities \<Rightarrow> rng \<Rightarrow> style_entry option \<times> rng" where
  "get_visual_style data entities g =
     (let styles = get_or (cat_visual_styles data) [];
          all_keywords = entities_get entities ''products'' @ entities_get entities ''topics''
      in case styles_loop styles all_keywords of
           Some style \<Rightarrow> (Some style, g)
         | None \<Rightarrow>
             if styles \<noteq> [] then (let (s, g') = random_choice styles g in (Some s, g'))
             else (None, g))"

definition get_hooks :: "'s catalog \<Rightarrow> entities \<Rightarrow> rng \<Rightarrow> string list \<times> rng" where
  "get_hooks data entities g =
     (let all_hooks = get_or (cat_hooks data) []
      in random_sample all_hooks (min 3 (length all_hooks)) g)"

definition get_ctas :: "'s catalog \<Rightarrow> rng \<Rightarrow> string list \<times> rng" where
  "get_ctas data g =
     (let all_ctas = get_or (cat_cta data) []
      in random_sample all_ctas (min 2 (length all_ctas)) g)"

text \<open>\<open>list(dict.fromkeys(xs))\<close>: the first occurrence of each element, in order.\<close>

fun dict_fromkeys :: "'a list \<Rightarrow> 'a list \<Rightarrow> 'a list" where
  "dict_fromkeys seen [] = []"
| "dict_fromkeys seen (x # xs) =
     (if x \<in> set seen then dict_fromkeys seen xs else x # dict_fromkeys (x # seen) xs)"

fun category_loop :: "(string \<times> string list) list \<Rightarrow> entities \<Rightarrow> string list" where
  "category_loop [] entities = []"
| "category_loop ((category, category_hashtags) # items) entities =
     (if category \<noteq> ''general'' then
        (let all_entities =
               join '' '' (entities_get entities (replace (replace category ''_'' []) ''s'' []))
         in if contains (lower all_entities) category
            then category_hashtags @ category_loop items entities
            else category_loop items entities)
      else category_loop items entities)"

definition get_hashtags :: "'s catalog \<Rightarrow> entities \<Rightarrow> string list" where
  "get_hashtags data entities =
     (let hashtags_data = get_or (cat_hashtags data) [];
          hashtags = category_loop hashtags_data entities;
          hashtags = hashtags @ get_or (map_of hashtags_data ''general'') []
      in take 15 (dict_fromkeys [] hashtags))"

definition get_sound_suggestions :: "'s catalog \<Rightarrow> 's list" where
  "get_sound_suggestions data =
     (let sounds = get_or (cat_sounds data) [] in if sounds \<noteq> [] then take 3 sounds else [])"

record 's trending_elements =
  te_format :: "format_entry option"
  te_visual_style :: "style_entry option"
  te_hooks :: "string list"
  te_ctas :: "string list"
  te_hashtags :: "string list"
  te_sound_suggestions :: "'s list"

definition inject :: "'s catalog \<Rightarrow> entities \<Rightarrow> rng \<Rightarrow> py_error + ('s trending_elements \<times> rng)" where
  "inject data entities g =
     (case get_matching_format data entities g of
        Inl e \<Rightarrow> Inl e
      | Inr (fmt, g1) \<Rightarrow>
          (let (style, g2) = get_visual_style data entities g1;
               (hks, g3) = get_hooks data entities g2;
               (cs, g4) = get_ctas data g3
           in Inr (\<lparr>te_format = fmt, te_visual_style = style, te_hooks = hks, te_ctas = cs,
                     te_hashtags = get_hashtags data entities,
                     te_sound_suggestions = get_sound_suggestions data\<rparr>, g4)))"

text \<open>
  \<open>update_data\<close>: \<open>dict.update\<close> gives every top-level key of the new data its new
  value and keeps the other keys; then the dictionary is written to the file. The
  write is the environment's: it succeeds, or it fails and leaves some content behind.
\<close>

definition dict_update :: "'s catalog \<Rightarrow> 's catalog \<Rightarrow> 's catalog" where
  "dict_update data new_data =
     \<lparr>cat_formats = (case cat_formats new_data of Some v \<Rightarrow> Some v | None \<Rightarrow> cat_formats data),
      cat_visual_styles = (case cat_visual_styles new_data of Some v \<Rightarrow> Some v | None \<Rightarrow> cat_visual_styles data),
      cat_hooks = (case cat_hooks new_data of Some v \<Rightarrow> Some v | None \<Rightarrow> cat_hooks data),
      cat_cta = (case cat_cta new_data of Some v \<Rightarrow> Some v | None \<Rightarrow> cat_cta data),
      cat_hashtags = (case cat_hashtags new_data of Some v \<Rightarrow> Some v | None \<Rightarrow> cat_hashtags data),
      cat_sounds = (case cat_sounds new_data of Some v \<Rightarrow> Some v | None \<Rightarrow> cat_sounds data)\<rparr>"

datatype 'f write_outcome = WriteOk | WriteFails 'f

record 's injector =
  inj_data :: "'s catalog"
  inj_file :: "'s catalog option"

definition update_data ::
  "'s injector \<Rightarrow> 's catalog \<Rightarrow> 's catalog option write_outcome \<Rightarrow> bool \<times> 's injector" where
  "update_data self new_data outcome =
     (let merged = dict_update (inj_data self) new_data in
      case outcome of
        WriteOk \<Rightarrow> (True, \<lparr>inj_data = merged, inj_file = Some merged\<rparr>)
      | WriteFails left \<Rightarrow> (False, \<lparr>inj_data = merged, inj_file = left\<rparr>))"

section \<open>PromptEngine (src/core/prompt\_engine.py)\<close>

text \<open>
  Each extractor loops over the lines of the response with the flag \<open>in_section\<close>;
  \<open>continue\<close> goes on with the next line and \<open>break\<close> returns what was collected.
\<close>

fun master_prompt_loop :: "string list \<Rightarrow> bool \<Rightarrow> string list \<Rightarrow> string list" where
  "master_prompt_loop [] in_section prompt_lines = prompt_lines"
| "master_prompt_loop (line # lines) in_section prompt_lines =
     (if contains line ''MASTER PROMPT'' then master_prompt_loop lines True prompt_lines
      else if in_section then
        (if startswith (strip line) ''#'' \<or> contains line ''---'' then prompt_lines
         else if strip line \<noteq> [] then
           master_prompt_loop lines in_section
             (prompt_lines @ [strip_chars [CHR 0x22] (strip line)])
         else master_prompt_loop lines in_section prompt_lines)
      else master_prompt_loop lines in_section prompt_lines)"

definition extract_master_prompt :: "string \<Rightarrow> py_error + string" where
  "extract_master_prompt raw_response =
     (if contains raw_response ''MASTER PROMPT'' then
        Inr (join '' '' (master_prompt_loop (split_on CHR 0x0A raw_response) False []))
      else if raw_response \<noteq> [] then
        (case split_on CHR 0x0A raw_response of
           [] \<Rightarrow> Inl IndexError
         | first_line # _ \<Rightarrow> Inr first_line)
      else Inr ''N/A'')"

definition default_specs :: "(string \<times> string) list" where
  "default_specs =
     [(''Style'', ''N/A''), (''Camera'', ''N/A''), (''Lighting'', ''N/A''),
      (''Aspect Ratio'', ''9:16''), (''Mood'', ''N/A'')]"

text \<open>\<open>d[key] = value\<close>: an existing key keeps its place, a new one goes last.\<close>

fun dict_set :: "(string \<times> 'v) list \<Rightarrow> string \<Rightarrow> 'v \<Rightarrow> (string \<times> 'v) list" where
  "dict_set [] key v = [(key, v)]"
| "dict_set ((k, x) # d) key v = (if k = key then (k, v) # d else (k, x) # dict_set d key v)"

definition table_row :: "(string \<times> string) list \<Rightarrow> string \<Rightarrow> (string \<times> string) list" where
  "table_row specs line =
     (let parts = map strip (filter (\<lambda>p. strip p \<noteq> []) (split_on CHR ''|'' line)) in
      case parts of
        key # v # _ \<Rightarrow> if key \<in> fst ` set specs then dict_set specs key v else specs
      | _ \<Rightarrow> specs)"

fun visual_specs_loop ::
  "string list \<Rightarrow> bool \<Rightarrow> (string \<times> string) list \<Rightarrow> (string \<times> string) list" where
  "visual_specs_loop [] in_section specs = specs"
| "visual_specs_loop (line # lines) in_section specs =
     (if contains line ''VISUAL'' \<or> contains line ''Visual''
      then visual_specs_loop lines True specs
      else if in_section \<and> contains line ''---'' then visual_specs_loop lines in_section specs
      else
        (let specs =
               (if in_section \<and> contains line ''|'' \<and> \<not> contains line ''---''
                then table_row specs line else specs)
         in if in_section \<and> contains line ''#'' \<and> \<not> contains line ''VISUAL'' then specs
            else visual_specs_loop lines in_section specs))"

definition extract_visual_specs :: "string \<Rightarrow> (string \<times> string) list" where
  "extract_visual_specs raw_response =
     (if contains raw_response ''VISUAL SPECIFICATIONS''
         \<or> contains raw_response ''Visual Specifications''
      then visual_specs_loop (split_on CHR 0x0A raw_response) False default_specs
      else default_specs)"

text \<open>
  The three patterns of \<open>_extract_script\<close>, searched with \<open>re.DOTALL | re.IGNORECASE\<close>.
  \<open>heading_marks\<close> is \<open>(?:##|\*\*|###)?\<close>; a section pattern is
  \<open>(?:^|\n)(?:##|\*\*|###)?\s*(?:NAMES).*?(?:\n|$)(.*?)(?=\n(?:##|\*\*|###)?\s*(?:NEXT)|$)\<close>.
\<close>

definition heading_marks :: regex where
  "heading_marks = Opt (alts (lit ''##'') [lit ''**'', lit ''###''])"

definition section_pattern :: "regex \<Rightarrow> regex \<Rightarrow> regex" where
  "section_pattern names next_names =
     seqs [Alt Bol (Atom (Chr CHR 0x0A)), heading_marks, Star Space, names,
           LazyStar AnyChar, Alt (Atom (Chr CHR 0x0A)) Eol,
           Group (LazyStar AnyChar),
           Ahead (Alt (seqs [Atom (Chr CHR 0x0A), heading_marks, Star Space, next_names]) Eol)]"

definition hook_pattern :: regex where
  "hook_pattern =
     section_pattern (alts (lit ''Hook'') [lit ''HOOK''])
       (alts (lit ''Body'') [lit ''BODY'', lit ''CTA'', lit ''Cta''])"

definition body_pattern :: regex where
  "body_pattern =
     section_pattern (alts (lit ''Body'') [lit ''BODY''])
       (alts (lit ''CTA'') [lit ''Cta'', lit ''Hook'', lit ''HOOK''])"

definition cta_pattern :: regex where
  "cta_pattern =
     section_pattern (alts (lit ''CTA'') [lit ''Cta'', lit ''Call to Action''])
       (alts (lit ''#'') [lit ''---''])"

record script =
  sc_hook :: string
  sc_body :: string
  sc_cta :: string

definition default_script :: script where
  "default_script = \<lparr>sc_hook = ''N/A'', sc_body = ''N/A'', sc_cta = ''N/A''\<rparr>"

text \<open>
  One round of the loop over the patterns: the new value of the section, given its
  current one. \<open>match.group(1)\<close> of a group that took no part in the match is
  \<open>None\<close>, and \<open>None.strip()\<close> raises.
\<close>

definition extract_section :: "regex \<Rightarrow> string \<Rightarrow> string \<Rightarrow> py_error + string" where
  "extract_section pattern text current =
     (case re_search True pattern text of
        None \<Rightarrow> Inr current
      | Some (b, rest, group1) \<Rightarrow>
          (case group1 of
             None \<Rightarrow> Inl AttributeError
           | Some captured \<Rightarrow>
               (let content = strip captured;
                    content = strip_chars ''*'' (strip_chars [CHR 0x27] (strip_chars [CHR 0x22] content))
                in if content \<noteq> [] then Inr content else Inr current)))"

definition extract_script :: "string \<Rightarrow> py_error + script" where
  "extract_script raw_response =
     (if \<not> contains (upper raw_response) (code_points ''SCRIPT'') then Inr default_script
      else
        (let text = replace raw_response [CHR 0x0D, CHR 0x0A] [CHR 0x0A] in
         case extract_section hook_pattern text (sc_hook default_script) of
           Inl e \<Rightarrow> Inl e
         | Inr h \<Rightarrow>
             (case extract_section body_pattern text (sc_body default_script) of
                Inl e \<Rightarrow> Inl e
              | Inr b \<Rightarrow>
                  (case extract_section cta_pattern text (sc_cta default_script) of
                     Inl e \<Rightarrow> Inl e
                   | Inr c \<Rightarrow> Inr \<lparr>sc_hook = h, sc_body = b, sc_cta = c\<rparr>))))"

fun hashtag_lines_loop :: "string list \<Rightarrow> bool \<Rightarrow> string list \<Rightarrow> string list" where
  "hashtag_lines_loop [] in_section hashtag_lines = hashtag_lines"
| "hashtag_lines_loop (line # lines) in_section hashtag_lines =
     (if contains line ''HASHTAGS'' \<or> contains line ''Hashtags''
      then hashtag_lines_loop lines True hashtag_lines
      else if in_section then
        (if startswith (strip line) ''#'' \<and> \<not> startswith (strip line) ''# ''
            \<and> \<not> contains (drop 1 (strip line)) ''#''
         then hashtag_lines
         else if contains line ''---'' then hashtag_lines
         else if strip line \<noteq> [] then
           hashtag_lines_loop lines in_section (hashtag_lines @ [strip line])
         else hashtag_lines_loop lines in_section hashtag_lines)
      else hashtag_lines_loop lines in_section hashtag_lines)"

definition parse_hashtags :: "string list \<Rightarrow> string list" where
  "parse_hashtags hashtag_lines =
     concat (map (\<lambda>line. map (\<lambda>w. replace w ''#'' [])
                              (filter (\<lambda>w. startswith w ''#'') (split_ws line)))
                 hashtag_lines)"

text \<open>
  \<open>trending_elements\<close> is the dictionary that \<open>inject\<close> returns, which always has
  the key \<open>hashtags\<close>.
\<close>

definition extract_hashtags :: "string \<Rightarrow> 's trending_elements \<Rightarrow> string list" where
  "extract_hashtags raw_response trending_elements =
     (let fallback = take 15 (te_hashtags trending_elements) in
      if contains raw_response ''HASHTAGS'' \<or> contains raw_response ''Hashtags'' then
        (let hashtag_lines = hashtag_lines_loop (split_on CHR 0x0A raw_response) False [] in
         if hashtag_lines \<noteq> [] then
           (let hashtags = parse_hashtags hashtag_lines in
            if hashtags \<noteq> [] then hashtags else fallback)
         else fallback)
      else fallback)"

record ai_result =
  ar_raw_response :: "string option"
  ar_language :: string

record structured_result =
  sr_master_prompt :: string
  sr_visual_specifications :: "(string \<times> string) list"
  sr_script :: script
  sr_hashtags :: "string list"
  sr_language :: string
  sr_raw_response :: string

definition structure_result ::
  "ai_result \<Rightarrow> 's trending_elements \<Rightarrow> 'p \<Rightarrow> string \<Rightarrow> py_error + structured_result" where
  "structure_result ai_result trending_elements platform_specifics language =
     (let raw_response = get_or (ar_raw_response ai_result) [] in
      case extract_master_prompt raw_response of
        Inl e \<Rightarrow> Inl e
      | Inr master_prompt \<Rightarrow>
          (let visual_specs = extract_visual_specs raw_response in
           case extract_script raw_response of
             Inl e \<Rightarrow> Inl e
           | Inr script \<Rightarrow>
               Inr \<lparr>sr_master_prompt = master_prompt,
                    sr_visual_specifications = visual_specs,
                    sr_script = script,
                    sr_hashtags = extract_hashtags raw_response trending_elements,
                    sr_language = language,
                    sr_raw_response = raw_response\<rparr>))"

section \<open>The catalog update as the specification words it\<close>

text \<open>
  The deep merge that section 4.4 of the specification ascribes to \<open>update\<close>, written
  from the specification's words to compare \<open>update_data\<close> with. Of the catalog's values
  only the hashtags mapping is nested, so a deep merge gives each category of the new
  mapping its new list and keeps the categories the new mapping does not name.
\<close>

definition spec_deep_merge :: "'s catalog \<Rightarrow> 's catalog \<Rightarrow> 's catalog" where
  "spec_deep_merge old_data new_data =
     (dict_update old_data new_data)
       \<lparr>cat_hashtags :=
          (case (cat_hashtags old_data, cat_hashtags new_data) of
             (Some old_tags, Some new_tags) \<Rightarrow>
               Some (foldl (\<lambda>d (category, tags). dict_set d category tags) old_tags new_tags)
           | (old_tags, None) \<Rightarrow> old_tags
           | (None, Some new_tags) \<Rightarrow> Some new_tags)\<rparr>"

section \<open>The section of the master prompt\<close>

text \<open>
  The lines that \<open>_extract_master_prompt\<close> reads for the prompt: those after the first
  line that holds the marker, up to the first line that ends the section. A line ends the
  section when, stripped, it starts with \<open>#\<close>, or when it holds \<open>---\<close>; a line that
  holds the marker again is skipped before that test.
\<close>

definition ends_section :: "string \<Rightarrow> bool" where
  "ends_section line = (startswith (strip line) ''#'' \<or> contains line ''---'')"

definition marker_section :: "string \<Rightarrow> string list" where
  "marker_section raw_response =
     takeWhile (\<lambda>line. contains line ''MASTER PROMPT'' \<or> \<not> ends_section line)
       (drop 1 (dropWhile (\<lambda>line. \<not> contains line ''MASTER PROMPT'')
                  (split_on CHR 0x0A raw_response)))"

section \<open>The script round trip\<close>






abbreviation "hook_names \<equiv> alts (lit ''Hook'') [lit ''HOOK'']"
abbreviation "hook_next \<equiv> alts (lit ''Body'') [lit ''BODY'', lit ''CTA'', lit ''Cta'']"
abbreviation "body_names \<equiv> alts (lit ''Body'') [lit ''BODY'']"
abbreviation "body_next \<equiv> alts (lit ''CTA'') [lit ''Cta'', lit ''Hook'', lit ''HOOK'']"
abbreviation "cta_names \<equiv> alts (lit ''CTA'') [lit ''Cta'', lit ''Call to Action'']"
abbreviation "cta_next \<equiv> alts (lit ''#'') [lit ''---'']"

section \<open>Example inputs\<close>


definition fallback_formats :: "format_entry list" where
  "fallback_formats =
     [\<lparr>fmt_name = ''POV'', fmt_platforms = [''tiktok'', ''instagram'', ''youtube''],
       fmt_keywords = Some [''pov'']\<rparr>,
      \<lparr>fmt_name = ''Tutorial'', fmt_platforms = [''tiktok'', ''instagram'', ''youtube''],
       fmt_keywords = Some [''tutorial'']\<rparr>]"

definition empty_catalog :: "string catalog" where
  "empty_catalog =
     \<lparr>cat_formats = None, cat_visual_styles = None, cat_hooks = None, cat_cta = None,
      cat_hashtags = None, cat_sounds = None\<rparr>"

definition large_catalog :: "string catalog" where
  "large_catalog =
     \<lparr>cat_formats = Some fallback_formats,
      cat_visual_styles = None,
      cat_hooks = Some [''h1'', ''h2'', ''h3'', ''h4'', ''h5''],
      cat_cta = Some [''c1'', ''c2'', ''c3''],
      cat_hashtags = Some [(''general'',
        [''#t1'', ''#t2'', ''#t3'', ''#t4'', ''#t5'', ''#t6'', ''#t1'', ''#t7'', ''#t8'', ''#t9'',
         ''#t10'', ''#t11'', ''#t12'', ''#t13'', ''#t14'', ''#t15'', ''#t16'', ''#t17''])],
      cat_sounds = Some [''s1'', ''s2'', ''s3'', ''s4'']\<rparr>"

definition no_entities :: entities where
  "no_entities = [(''products'', []), (''topics'', []), (''emotions'', []), (''target_audience'', [])]"

definition fyp_bundle :: "string trending_elements" where
  "fyp_bundle =
     \<lparr>te_format = None, te_visual_style = None, te_hooks = [], te_ctas = [],
      te_hashtags = [''#fyp''], te_sound_suggestions = []\<rparr>"

section \<open>Lemmas\<close>

subsection \<open>Evaluation\<close>

lemmas lower_ch_eval = lower_ch_def latin1_capitals_def latin1_smalls_def

lemmas sanitize_eval = sanitize_def split_ws_def isspace_def re_sub_empty_def tag_pattern_def
  dangerous_patterns_def seqs_def lit_def strip_def lower_ch_eval isword_def

lemmas validate_eval = validate_def validate_length_def min_length_def max_length_def
  str_of_nat.simps

subsection \<open>Samples and bundles\<close>

lemma mset_pool_step:
  assumes "j < length pool"
  shows "add_mset (pool ! j) (mset (butlast (pool[j := last pool]))) = mset pool"
proof -
  from assms have ne: "pool \<noteq> []" by auto
  then obtain xs x where p: "pool = xs @ [x]" by (metis append_butlast_last_id)
  show ?thesis
  proof (cases "j = length xs")
    case True
    then show ?thesis using p by simp
  next
    case False
    with assms p have "j < length xs" by simp
    then show ?thesis using p by (simp add: list_update_append nth_append mset_update)
  qed
qed

lemma random_sample_Suc:
  "random_sample pool (Suc k) g =
     (pool ! (g 0 mod length pool) #
        fst (random_sample (butlast (pool[g 0 mod length pool := last pool])) k (\<lambda>i. g (Suc i))),
      snd (random_sample (butlast (pool[g 0 mod length pool := last pool])) k (\<lambda>i. g (Suc i))))"
  by (simp add: randbelow_def split: prod.splits)

lemma random_sample_mset:
  "k \<le> length pool \<Longrightarrow> mset (fst (random_sample pool k g)) \<subseteq># mset pool"
proof (induction k arbitrary: pool g)
  case 0
  then show ?case by simp
next
  case (Suc k)
  let ?j = "g 0 mod length pool"
  from Suc.prems have "0 < length pool" by (cases pool) simp_all
  then have j: "?j < length pool" by simp
  let ?pool' = "butlast (pool[?j := last pool])"
  have "k \<le> length ?pool'" using Suc.prems by simp
  from Suc.IH[OF this, of "\<lambda>i. g (Suc i)"]
  have "mset (fst (random_sample ?pool' k (\<lambda>i. g (Suc i)))) \<subseteq># mset ?pool'" .
  then have "add_mset (pool ! ?j) (mset (fst (random_sample ?pool' k (\<lambda>i. g (Suc i)))))
      \<subseteq># add_mset (pool ! ?j) (mset ?pool')" by simp
  with mset_pool_step[OF j] show ?case
    by (simp only: random_sample_Suc fst_conv mset.simps)
qed

lemma random_sample_length: "length (fst (random_sample pool k g)) = k"
proof (induction k arbitrary: pool g)
  case 0
  then show ?case by simp
next
  case (Suc k)
  then show ?case by (simp only: random_sample_Suc fst_conv list.size)
qed

lemma dict_fromkeys_set: "set (dict_fromkeys seen xs) = set xs - set seen"
  by (induction seen xs rule: dict_fromkeys.induct) auto

lemma dict_fromkeys_distinct: "distinct (dict_fromkeys seen xs)"
  by (induction seen xs rule: dict_fromkeys.induct) (auto simp: dict_fromkeys_set)

lemma get_hooks_props:
  "length (fst (get_hooks data entities g)) \<le> 3 \<and>
   mset (fst (get_hooks data entities g)) \<subseteq># mset (get_or (cat_hooks data) [])"
  by (simp add: get_hooks_def Let_def random_sample_length random_sample_mset)

lemma get_ctas_props:
  "length (fst (get_ctas data g)) \<le> 2 \<and>
   mset (fst (get_ctas data g)) \<subseteq># mset (get_or (cat_cta data) [])"
  by (simp add: get_ctas_def Let_def random_sample_length random_sample_mset)

lemma get_hashtags_props:
  "length (get_hashtags data entities) \<le> 15 \<and> distinct (get_hashtags data entities)"
  by (simp add: get_hashtags_def Let_def dict_fromkeys_distinct)

lemma get_sound_suggestions_props:
  "length (get_sound_suggestions data) \<le> 3 \<and>
   get_sound_suggestions data = take 3 (get_or (cat_sounds data) [])"
  by (simp add: get_sound_suggestions_def Let_def)

lemma inject_Inr:
  assumes "inject data entities g = Inr (bundle, g')"
  shows "\<exists>g1 g2. te_hooks bundle = fst (get_hooks data entities g1)
       \<and> te_ctas bundle = fst (get_ctas data g2)
       \<and> te_hashtags bundle = get_hashtags data entities
       \<and> te_sound_suggestions bundle = get_sound_suggestions data"
proof (cases "get_matching_format data entities g")
  case (Inl e)
  with assms show ?thesis unfolding inject_def by simp
next
  case (Inr p)
  obtain fmt g1 where p: "p = (fmt, g1)" by (cases p)
  obtain style g2 where s: "get_visual_style data entities g1 = (style, g2)"
    by (cases "get_visual_style data entities g1")
  obtain hks g3 where h: "get_hooks data entities g2 = (hks, g3)"
    by (cases "get_hooks data entities g2")
  obtain cs g4 where c: "get_ctas data g3 = (cs, g4)"
    by (cases "get_ctas data g3")
  have "inject data entities g =
      Inr (\<lparr>te_format = fmt, te_visual_style = style, te_hooks = hks, te_ctas = cs,
            te_hashtags = get_hashtags data entities,
            te_sound_suggestions = get_sound_suggestions data\<rparr>, g4)"
    by (simp add: inject_def Inr p s h c)
  with assms have b:
    "bundle = \<lparr>te_format = fmt, te_visual_style = style, te_hooks = hks, te_ctas = cs,
               te_hashtags = get_hashtags data entities,
               te_sound_suggestions = get_sound_suggestions data\<rparr>"
    by simp
  have "te_hooks bundle = fst (get_hooks data entities g2)" unfolding b h by simp
  moreover have "te_ctas bundle = fst (get_ctas data g3)" unfolding b c by simp
  moreover have "te_hashtags bundle = get_hashtags data entities" unfolding b by simp
  moreover have "te_sound_suggestions bundle = get_sound_suggestions data" unfolding b by simp
  ultimately show ?thesis by blast
qed

lemma inject_large_catalog:
  "\<exists>bundle g'. inject large_catalog no_entities (\<lambda>i. i) = Inr (bundle, g')"
  by (simp add: inject_def large_catalog_def no_entities_def get_matching_format_def
      get_visual_style_def get_hooks_def get_ctas_def get_or_def entities_get_def
      fallback_formats_def random_choice_def randbelow_def)

lemma format_topics_loop_returns:
  "fmt_keywords format_item \<noteq> None \<Longrightarrow> \<exists>r. format_topics_loop format_item topics = Inr r"
  by (induction topics) auto

lemma formats_loop_returns:
  "\<forall>f\<in>set formats. fmt_keywords f \<noteq> None \<Longrightarrow> \<exists>r. formats_loop formats topics = Inr r"
proof (induction formats)
  case Nil
  then show ?case by simp
next
  case (Cons f formats)
  then obtain r where "format_topics_loop f topics = Inr r"
    using format_topics_loop_returns[of f topics] by auto
  with Cons show ?case by (cases r) auto
qed

lemma get_matching_format_returns:
  assumes "\<forall>f\<in>set (get_or (cat_formats data) []). fmt_keywords f \<noteq> None"
  shows "\<exists>r. get_matching_format data entities g = Inr r"
proof -
  from formats_loop_returns[OF assms, of "entities_get entities ''topics''"]
  obtain r where "formats_loop (get_or (cat_formats data) []) (entities_get entities ''topics'')
      = Inr r" by blast
  then show ?thesis
    by (cases r) (auto simp: get_matching_format_def Let_def split: prod.splits)
qed

lemma inject_returns:
  assumes "\<forall>f\<in>set (get_or (cat_formats data) []). fmt_keywords f \<noteq> None"
  shows "\<exists>b r. inject data entities g = Inr (b, r)"
proof -
  from get_matching_format_returns[OF assms, of entities g]
  obtain fmt g1 where "get_matching_format data entities g = Inr (fmt, g1)" by auto
  then show ?thesis
    by (simp add: inject_def Let_def split: prod.splits)
qed

lemma trim_ends:
  fixes P :: "'a \<Rightarrow> bool"
  defines "t \<equiv> \<lambda>s. rev (dropWhile P (rev (dropWhile P s)))"
  shows "t s = [] \<or> (\<not> P (hd (t s)) \<and> \<not> P (last (t s)))"
proof (cases "dropWhile P (rev (dropWhile P s)) = []")
  case True
  then show ?thesis by (simp add: t_def)
next
  case False
  let ?d = "dropWhile P s"
  let ?e = "dropWhile P (rev ?d)"
  from False have he: "\<not> P (hd ?e)" by (rule hd_dropWhile)
  from False have d: "?d \<noteq> []" by (metis dropWhile.simps(1) rev.simps(1))
  then have hd: "\<not> P (hd ?d)" by (rule hd_dropWhile)
  have "rev ?d = takeWhile P (rev ?d) @ ?e" by simp
  then have "last (rev ?d) = last (takeWhile P (rev ?d) @ ?e)" by simp
  also have "\<dots> = last ?e" using False by (rule last_appendR)
  finally have "last ?e = hd ?d" using d by (simp add: last_rev)
  with hd have le: "\<not> P (last ?e)" by simp
  from False he le show ?thesis by (simp add: t_def hd_rev last_rev)
qed

lemma sanitize_trimmed:
  "sanitize raw = [] \<or> (\<not> isspace (hd (sanitize raw)) \<and> \<not> isspace (last (sanitize raw)))"
  unfolding sanitize_def Let_def strip_def by (rule trim_ends)

subsection \<open>Results without errors\<close>

lemma split_by_not_Nil: "split_by sep s \<noteq> []"
  by (induction s) (auto split: list.splits)

lemma extract_master_prompt_total: "\<exists>v. extract_master_prompt raw = Inr v"
  using split_by_not_Nil[of "\<lambda>c. c = CHR 0x0A" raw]
  by (auto simp: extract_master_prompt_def split_on_def split: list.splits)

lemma star_greedy_cont:
  "star_greedy ic a st k = Some m \<Longrightarrow> \<exists>st'. k st' = Some m"
  by (induction ic a st k rule: star_greedy.induct)
    (auto simp del: split_paired_Ex split: if_splits option.splits)

lemma star_lazy_cont:
  "star_lazy ic a st k = Some m \<Longrightarrow> \<exists>st'. k st' = Some m"
  by (induction ic a st k rule: star_lazy.induct)
    (auto simp del: split_paired_Ex split: if_splits option.splits)

lemma bt_cont: "bt ic r st k = Some m \<Longrightarrow> \<exists>st'. k st' = Some m"
proof (induction r arbitrary: st k)
  case Eps
  then show ?case by (simp del: split_paired_Ex) blast
next
  case (Atom a)
  then show ?case
    by (cases st; cases "fst (snd st)") (auto simp del: split_paired_Ex split: if_splits)
next
  case Bol
  then show ?case by (cases st) (auto simp del: split_paired_Ex split: if_splits)
next
  case Eol
  then show ?case by (cases st) (auto simp del: split_paired_Ex split: if_splits)
next
  case (Seq r1 r2)
  from Seq.prems have "bt ic r1 st (\<lambda>st'. bt ic r2 st' k) = Some m" by simp
  from Seq.IH(1)[OF this] obtain st1 where "bt ic r2 st1 k = Some m" by blast
  from Seq.IH(2)[OF this] show ?case .
next
  case (Alt r1 r2)
  show ?case
  proof (cases "bt ic r1 st k")
    case None
    with Alt.prems have "bt ic r2 st k = Some m" by simp
    from Alt.IH(2)[OF this] show ?thesis .
  next
    case (Some x)
    with Alt.prems have "bt ic r1 st k = Some m" by simp
    from Alt.IH(1)[OF this] show ?thesis .
  qed
next
  case (Opt r)
  show ?case
  proof (cases "bt ic r st k")
    case None
    with Opt.prems have "k st = Some m" by simp
    then show ?thesis by blast
  next
    case (Some x)
    with Opt.prems have "bt ic r st k = Some m" by simp
    from Opt.IH[OF this] show ?thesis .
  qed
next
  case (Star a)
  then show ?case by (simp del: split_paired_Ex) (rule star_greedy_cont)
next
  case (Plus a)
  then show ?case
    by (cases st; cases "fst (snd st)")
      (auto simp del: split_paired_Ex split: if_splits dest: star_greedy_cont)
next
  case (LazyStar a)
  then show ?case by (simp del: split_paired_Ex) (rule star_lazy_cont)
next
  case (Group r)
  obtain b s g where st: "st = (b, s, g)" by (cases st)
  from Group.prems st have
    "bt ic r (b, s, g) (\<lambda>(b', s', g'). k (b', s', Some (take (length s - length s') s))) = Some m"
    by simp
  from Group.IH[OF this] obtain st' :: mstate where
    "(case st' of (b', s', g') \<Rightarrow> k (b', s', Some (take (length s - length s') s))) = Some m"
    by blast
  then show ?case by (cases st') (auto simp del: split_paired_Ex)
next
  case (Ahead r)
  then have "k st = Some m" by (simp split: option.splits)
  then show ?case by blast
qed

lemma bt_Seq_cont: "bt ic (Seq r1 r2) st k = Some m \<Longrightarrow> \<exists>st'. bt ic r2 st' k = Some m"
  by (simp, drule bt_cont, simp)

lemma bt_Group_captures:
  assumes "bt ic (Seq (Group r) r2) st Some = Some (b, s, g)"
    and "\<And>st' m. bt ic r2 st' Some = Some m \<Longrightarrow> m = st'"
  shows "g \<noteq> None"
proof -
  obtain b0 s0 g0 where st: "st = (b0, s0, g0)" by (cases st)
  from assms(1) st have
    "bt ic r (b0, s0, g0)
       (\<lambda>(b', s', g'). bt ic r2 (b', s', Some (take (length s0 - length s') s0)) Some)
     = Some (b, s, g)"
    by simp
  from bt_cont[OF this] obtain b' s' g' where
    "bt ic r2 (b', s', Some (take (length s0 - length s') s0)) Some = Some (b, s, g)"
    by (auto split: prod.splits)
  from assms(2)[OF this] show ?thesis by simp
qed

lemma section_pattern_captures:
  assumes "bt True (section_pattern names next_names) st Some = Some (b, s, g)"
  shows "g \<noteq> None"
proof -
  let ?look = "Ahead (Alt (seqs [Atom (Chr CHR 0x0A), heading_marks, Star Space, next_names]) Eol)"
  have look: "\<And>st' m. bt True (Seq ?look Eps) st' Some = Some m \<Longrightarrow> m = st'"
    by (auto split: option.splits)
  from assms have "bt True (Seq (Alt Bol (Atom (Chr CHR 0x0A))) (Seq heading_marks (Seq (Star Space)
      (Seq names (Seq (LazyStar AnyChar) (Seq (Alt (Atom (Chr CHR 0x0A)) Eol)
      (Seq (Group (LazyStar AnyChar)) (Seq ?look Eps))))))))
      st Some = Some (b, s, g)"
    by (simp only: section_pattern_def seqs_def foldr.simps o_apply id_apply)
  then obtain st6 where
    "bt True (Seq (Group (LazyStar AnyChar)) (Seq ?look Eps)) st6 Some = Some (b, s, g)"
    by (blast dest: bt_Seq_cont)
  from bt_Group_captures[OF this look] show ?thesis .
qed

lemma search_at_bt:
  "search_at ic r b s = Some m \<Longrightarrow> \<exists>b' s'. bt ic r (b', s', None) Some = Some m"
  by (induction s arbitrary: b) (auto split: option.splits)

lemma extract_section_total:
  "\<exists>v. extract_section (section_pattern names next_names) text current = Inr v"
proof (cases "re_search True (section_pattern names next_names) text")
  case None
  then show ?thesis by (simp add: extract_section_def)
next
  case (Some m)
  obtain b s g where m: "m = (b, s, g)" by (cases m)
  from Some m have "search_at True (section_pattern names next_names) True text = Some (b, s, g)"
    by (simp add: re_search_def)
  from search_at_bt[OF this] section_pattern_captures
  have "g \<noteq> None" by blast
  with Some m show ?thesis by (auto simp: extract_section_def Let_def)
qed

lemma extract_script_total: "\<exists>v. extract_script raw = Inr v"
proof -
  let ?text = "replace raw [CHR 0x0D, CHR 0x0A] [CHR 0x0A]"
  obtain h where h: "extract_section hook_pattern ?text (sc_hook default_script) = Inr h"
    unfolding hook_pattern_def using extract_section_total by blast
  obtain b where b: "extract_section body_pattern ?text (sc_body default_script) = Inr b"
    unfolding body_pattern_def using extract_section_total by blast
  obtain c where c: "extract_section cta_pattern ?text (sc_cta default_script) = Inr c"
    unfolding cta_pattern_def using extract_section_total by blast
  show ?thesis by (simp add: extract_script_def h b c)
qed

subsection \<open>Substrings and lines\<close>

lemma startswith_iff: "startswith s p \<longleftrightarrow> (\<exists>q. s = p @ q)"
  by (induction s p rule: startswith.induct) auto

lemma contains_iff: "contains s sub \<longleftrightarrow> (\<exists>p q. s = p @ sub @ q)"
proof (induction s)
  case Nil
  then show ?case by auto
next
  case (Cons c cs)
  show ?case
  proof
    assume "contains (c # cs) sub"
    then consider "startswith (c # cs) sub" | "contains cs sub" by auto
    then show "\<exists>p q. c # cs = p @ sub @ q"
    proof cases
      case 1
      then obtain q where "c # cs = sub @ q" by (auto simp: startswith_iff)
      then have "c # cs = [] @ sub @ q" by simp
      then show ?thesis by blast
    next
      case 2
      with Cons.IH obtain p q where "cs = p @ sub @ q" by blast
      then have "c # cs = (c # p) @ sub @ q" by simp
      then show ?thesis by blast
    qed
  next
    assume "\<exists>p q. c # cs = p @ sub @ q"
    then obtain p q where e: "c # cs = p @ sub @ q" by blast
    show "contains (c # cs) sub"
    proof (cases p)
      case Nil
      with e have "startswith (c # cs) sub" by (auto simp: startswith_iff)
      then show ?thesis by simp
    next
      case (Cons a p')
      with e have "cs = p' @ sub @ q" by simp
      with Cons.IH have "contains cs sub" by blast
      then show ?thesis by simp
    qed
  qed
qed

lemma trim_infix: "\<exists>p q. l = p @ rev (dropWhile P (rev (dropWhile P l))) @ q"
proof -
  let ?d = "dropWhile P l"
  have 1: "l = takeWhile P l @ ?d" by simp
  have 2: "rev (dropWhile P (rev ?d)) @ rev (takeWhile P (rev ?d)) = ?d"
    by (simp only: rev_append[symmetric] takeWhile_dropWhile_id rev_rev_ident)
  have "l = takeWhile P l @ rev (dropWhile P (rev ?d)) @ rev (takeWhile P (rev ?d))"
    by (simp only: 2 takeWhile_dropWhile_id)
  then show ?thesis by blast
qed

lemma contains_trans:
  assumes "contains b c" and "\<exists>p q. a = p @ b @ q"
  shows "contains a c"
proof -
  from assms(1) obtain p q where "b = p @ c @ q" by (auto simp: contains_iff)
  moreover from assms(2) obtain p' q' where "a = p' @ b @ q'" by blast
  ultimately have "a = (p' @ p) @ c @ (q @ q')" by simp
  then show ?thesis unfolding contains_iff by blast
qed

lemma contains_strip: "contains (strip l) c \<Longrightarrow> contains l c"
  unfolding strip_def by (rule contains_trans[OF _ trim_infix])

lemma contains_strip_chars: "contains (strip_chars cs l) c \<Longrightarrow> contains l c"
  unfolding strip_chars_def by (rule contains_trans[OF _ trim_infix])

lemma split_by_hd_prefix: "split_by sep s = w # ws \<Longrightarrow> \<exists>q. s = w @ q"
  by (induction s arbitrary: w ws) (auto split: if_splits list.splits)

lemma split_by_infix: "l \<in> set (split_by sep s) \<Longrightarrow> \<exists>p q. s = p @ l @ q"
proof (induction s arbitrary: l)
  case Nil
  then show ?case by simp
next
  case (Cons c cs)
  obtain w ws where ws: "split_by sep cs = w # ws"
    using split_by_not_Nil[of sep cs] by (cases "split_by sep cs") auto
  show ?case
  proof (cases "sep c")
    case True
    with Cons.prems have "l = [] \<or> l \<in> set (split_by sep cs)" by simp
    then show ?thesis
    proof
      assume "l = []"
      then have "c # cs = [] @ l @ (c # cs)" by simp
      then show ?thesis by blast
    next
      assume "l \<in> set (split_by sep cs)"
      from Cons.IH[OF this] obtain p q where "cs = p @ l @ q" by blast
      then have "c # cs = (c # p) @ l @ q" by simp
      then show ?thesis by blast
    qed
  next
    case False
    with Cons.prems ws have "l = c # w \<or> l \<in> set ws" by simp
    then show ?thesis
    proof
      assume l: "l = c # w"
      from split_by_hd_prefix[OF ws] obtain q where "cs = w @ q" by blast
      with l have "c # cs = [] @ l @ q" by simp
      then show ?thesis by blast
    next
      assume "l \<in> set ws"
      with ws have "l \<in> set (split_by sep cs)" by simp
      from Cons.IH[OF this] obtain p q where "cs = p @ l @ q" by blast
      then have "c # cs = (c # p) @ l @ q" by simp
      then show ?thesis by blast
    qed
  qed
qed

lemma contains_line: "l \<in> set (split_on sep s) \<Longrightarrow> contains l c \<Longrightarrow> contains s c"
  unfolding split_on_def by (rule contains_trans[OF _ split_by_infix])

lemma master_prompt_loop_elems:
  "x \<in> set (master_prompt_loop lines b acc) \<Longrightarrow>
   x \<in> set acc \<or> (\<exists>l\<in>set lines. x = strip_chars [CHR 0x22] (strip l))"
  by (induction lines b acc rule: master_prompt_loop.induct) (auto split: if_splits)

lemma join_set: "set sep \<subseteq> set (join sep (x # y # ys))"
  by auto

lemma join_without_sep:
  assumes "join sep xs = v" and "c \<in> set sep" and "c \<notin> set v"
  shows "xs = [] \<or> xs = [v]"
proof (cases xs)
  case Nil
  then show ?thesis by simp
next
  case (Cons x xs')
  show ?thesis
  proof (cases xs')
    case Nil
    with Cons assms(1) show ?thesis by simp
  next
    case (Cons y ys)
    with \<open>xs = x # xs'\<close> assms(1) have "v = join sep (x # y # ys)" by simp
    with join_set[of sep x y ys] assms(2,3) show ?thesis by blast
  qed
qed

lemma master_prompt_loop_in_section:
  "\<forall>l\<in>set (takeWhile (\<lambda>line. contains line ''MASTER PROMPT'' \<or> \<not> ends_section line) lines).
      strip l = [] \<or> contains l ''MASTER PROMPT''
   \<Longrightarrow> master_prompt_loop lines True acc = acc"
  by (induction lines) (auto simp: ends_section_def)

lemma master_prompt_loop_before:
  "master_prompt_loop lines False acc =
     (case dropWhile (\<lambda>line. \<not> contains line ''MASTER PROMPT'') lines of
        [] \<Rightarrow> acc
      | m # rest \<Rightarrow> master_prompt_loop rest True acc)"
  by (induction lines) auto

subsection \<open>The script patterns on a response of three sections\<close>




lemma lower_ch_cases:
  "lower_ch c = c \<or> lower_ch c \<in> set (''abcdefghijklmnopqrstuvwxyz'' @ latin1_smalls)"
  by (auto simp: lower_ch_eval split: option.splits dest!: map_of_SomeD)

lemma lower_ch_eq_nl [simp]: "(lower_ch c = lower_ch CHR 0x0A) = (c = CHR 0x0A)"
  using lower_ch_cases[of c] by (auto simp: lower_ch_eval)


lemma line_end_nonnl:
  "c \<noteq> CHR 0x0A \<Longrightarrow> bt True (Alt (Atom (Chr CHR 0x0A)) Eol) (b, c # s, g) k = None"
  by simp









































subsection \<open>The script of a response\<close>




section \<open>The claims\<close>

subsection \<open>C1\<close>


subsection \<open>C2\<close>

text \<open>
  C2, as the source has it. \<open>_structure_result\<close> returns a result for every
  response and never raises. On the empty response the master prompt, the three script
  fields and the visual specifications Style, Camera, Lighting and Mood are \<open>N/A\<close>,
  the visual specification Aspect Ratio is \<open>9:16\<close>, and the hashtags are the
  first 15 of the bundle's.
\<close>

theorem C2_structure_never_raises:
  "(\<exists>r. structure_result ai_result trending_elements platform_specifics language = Inr r)
   \<and> structure_result \<lparr>ar_raw_response = Some [], ar_language = language\<rparr>
        trending_elements platform_specifics language
      = Inr \<lparr>sr_master_prompt = ''N/A'',
             sr_visual_specifications =
               [(''Style'', ''N/A''), (''Camera'', ''N/A''), (''Lighting'', ''N/A''),
                (''Aspect Ratio'', ''9:16''), (''Mood'', ''N/A'')],
             sr_script = \<lparr>sc_hook = ''N/A'', sc_body = ''N/A'', sc_cta = ''N/A''\<rparr>,
             sr_hashtags = take 15 (te_hashtags trending_elements),
             sr_language = language,
             sr_raw_response = []\<rparr>"
proof
  let ?raw = "get_or (ar_raw_response ai_result) []"
  obtain mp where mp: "extract_master_prompt ?raw = Inr mp"
    using extract_master_prompt_total by blast
  obtain sc where sc: "extract_script ?raw = Inr sc"
    using extract_script_total by blast
  show "\<exists>r. structure_result ai_result trending_elements platform_specifics language = Inr r"
    by (simp add: structure_result_def mp sc Let_def)
next
  show "structure_result \<lparr>ar_raw_response = Some [], ar_language = language\<rparr>
        trending_elements platform_specifics language
      = Inr \<lparr>sr_master_prompt = ''N/A'',
             sr_visual_specifications =
               [(''Style'', ''N/A''), (''Camera'', ''N/A''), (''Lighting'', ''N/A''),
                (''Aspect Ratio'', ''9:16''), (''Mood'', ''N/A'')],
             sr_script = \<lparr>sc_hook = ''N/A'', sc_body = ''N/A'', sc_cta = ''N/A''\<rparr>,
             sr_hashtags = take 15 (te_hashtags trending_elements),
             sr_language = language,
             sr_raw_response = []\<rparr>"
    by (simp add: structure_result_def get_or_def extract_master_prompt_def
        extract_visual_specs_def default_specs_def extract_script_def upper_def
        code_points_def default_script_def extract_hashtags_def)
qed

theorem C2_structure_never_raises_witness:
  "structure_result \<lparr>ar_raw_response = Some [], ar_language = ''id''\<rparr> fyp_bundle () ''id''
     = Inr \<lparr>sr_master_prompt = ''N/A'',
            sr_visual_specifications =
              [(''Style'', ''N/A''), (''Camera'', ''N/A''), (''Lighting'', ''N/A''),
               (''Aspect Ratio'', ''9:16''), (''Mood'', ''N/A'')],
            sr_script = \<lparr>sc_hook = ''N/A'', sc_body = ''N/A'', sc_cta = ''N/A''\<rparr>,
            sr_hashtags = [''#fyp''],
            sr_language = ''id'',
            sr_raw_response = []\<rparr>"
  using C2_structure_never_raises[of "\<lparr>ar_raw_response = Some [], ar_language = ''id''\<rparr>"
      fyp_bundle "()" "''id''"]
  by (simp add: fyp_bundle_def)

text \<open>
  C2 as the claim states it fails on the empty response: the visual specification
  Aspect Ratio is \<open>9:16\<close>, not \<open>N/A\<close>.
\<close>

theorem C2_aspect_ratio_default:
  "(case structure_result \<lparr>ar_raw_response = Some [], ar_language = ''id''\<rparr>
           fyp_bundle () ''id'' of
      Inl e \<Rightarrow> False
    | Inr r \<Rightarrow>
        map_of (sr_visual_specifications r) ''Aspect Ratio'' = Some ''9:16''
        \<and> map_of (sr_visual_specifications r) ''Aspect Ratio'' \<noteq> Some ''N/A'')"
  by (simp add: structure_result_def get_or_def extract_master_prompt_def
      extract_visual_specs_def default_specs_def extract_script_def upper_def
      code_points_def default_script_def extract_hashtags_def)

subsection \<open>C3\<close>

text \<open>
  C3, as the source has it. \<open>validate\<close> fails exactly when the sanitized text is
  shorter than 5 or longer than 2000 characters. The failure it returns holds the
  message with both bounds and the sanitized text; the length of that text is not
  part of it (the source only logs it). When the length is within the bounds the
  result is the valid one, which does hold the length.
\<close>

theorem C3_validate_length_bounds:
  "(map_of (validate detect text) ''valid'' = Some (PBool False)
      \<longleftrightarrow> length (sanitize text) < 5 \<or> 2000 < length (sanitize text))
   \<and> (length (sanitize text) < 5 \<or> 2000 < length (sanitize text) \<longrightarrow>
        validate detect text =
          [(''valid'', PBool False),
           (''error'', PStr ''Input must be between 5 and 2000 characters''),
           (''sanitized'', PStr (sanitize text))])
   \<and> (5 \<le> length (sanitize text) \<and> length (sanitize text) \<le> 2000 \<longrightarrow>
        validate detect text =
          [(''valid'', PBool True),
           (''sanitized'', PStr (sanitize text)),
           (''language'', PStr (detect_language detect (sanitize text))),
           (''entities'', PEntities (extract_entities (sanitize text))),
           (''length'', PInt (length (sanitize text)))])"
  by (auto simp add: validate_eval Let_def)

theorem C3_validate_length_bounds_witness:
  "length (sanitize ''  hi <b> '') = 2
   \<and> validate (\<lambda>text. Some ''id'') ''  hi <b> '' =
        [(''valid'', PBool False),
         (''error'', PStr ''Input must be between 5 and 2000 characters''),
         (''sanitized'', PStr ''hi'')]"
proof -
  have s: "sanitize ''  hi <b> '' = ''hi''"
    by (simp add: sanitize_eval)
  then have "length (sanitize ''  hi <b> '') < 5 \<or> 2000 < length (sanitize ''  hi <b> '')"
    by simp
  with C3_validate_length_bounds[of "\<lambda>text. Some ''id''" "''  hi <b> ''"] s
  show ?thesis by simp
qed

text \<open>
  C3 as the claim states it fails on the input \<open>tes\<close>: the result has no entry for
  the length of the sanitized text (3), and its message does not name it.
\<close>

theorem C3_error_without_length:
  "validate (\<lambda>text. None) ''tes'' =
     [(''valid'', PBool False),
      (''error'', PStr ''Input must be between 5 and 2000 characters''),
      (''sanitized'', PStr ''tes'')]
   \<and> map_of (validate (\<lambda>text. None) ''tes'') ''length'' = None
   \<and> length (sanitize ''tes'') = 3
   \<and> \<not> contains ''Input must be between 5 and 2000 characters'' (str_of_nat 3)"
  by (simp add: validate_eval sanitize_eval)

subsection \<open>C4\<close>

text \<open>
  C4, on the fallback catalog's formats with the topic \<open>tutorial\<close>: the keyword list
  of the second format holds the topic and that of the first does not, and
  \<open>_get_matching_format\<close> returns the first format.
\<close>

theorem C4_first_format_returned:
  "get_matching_format (empty_catalog\<lparr>cat_formats := Some fallback_formats\<rparr>)
     [(''products'', []), (''topics'', [''tutorial'']), (''emotions'', []),
      (''target_audience'', [])] g
   = Inr (Some \<lparr>fmt_name = ''POV'', fmt_platforms = [''tiktok'', ''instagram'', ''youtube''],
                fmt_keywords = Some [''pov'']\<rparr>, g)"
  by (simp add: get_matching_format_def fallback_formats_def empty_catalog_def get_or_def
      entities_get_def)

subsection \<open>C5\<close>

text \<open>
  C5, on a catalog with the category \<open>skincare\<close> and entities whose products hold
  \<open>skincare\<close>: \<open>_get_hashtags\<close> looks the entities up under \<open>kincare\<close>, finds
  nothing, and returns the general hashtags only.
\<close>

theorem C5_category_hashtags_dropped:
  "get_hashtags
     (empty_catalog\<lparr>cat_hashtags :=
        Some [(''skincare'', [''#glowingskin'']), (''general'', [''#fyp''])]\<rparr>)
     [(''products'', [''skincare'']), (''topics'', []), (''emotions'', []),
      (''target_audience'', [])]
   = [''#fyp'']"
  by (simp add: get_hashtags_def empty_catalog_def get_or_def entities_get_def lower_def
      lower_ch_eval)

subsection \<open>C6\<close>

text \<open>
  C6, on a response whose hashtags section is the one line \<open>#skincare\<close>: the line
  starts with \<open>#\<close>, not with \<open>#\<close> and a space, and has no further \<open>#\<close>, so
  \<open>_extract_hashtags\<close> takes it for a header, stops, and falls back to the bundle.
  A heading in the section does not stop it and gives an empty tag. The example of the
  claim gives the two tags in their order.
\<close>

theorem C6_single_hashtag_line_dropped:
  "extract_hashtags ''# HASHTAGS\<newline>#skincare'' fyp_bundle = [''#fyp'']
   \<and> extract_hashtags ''# HASHTAGS\<newline># NEXT\<newline>#skincare #fyp'' fyp_bundle
       = [[], ''skincare'', ''fyp'']
   \<and> extract_hashtags ''# HASHTAGS\<newline>#skincare #fyp'' fyp_bundle = [''skincare'', ''fyp'']"
  by (simp add: extract_hashtags_def fyp_bundle_def split_on_def strip_def isspace_def
      parse_hashtags_def split_ws_def)

subsection \<open>C7\<close>

text \<open>
  C7, as the source has it. A bundle that \<open>inject\<close> returns has at most 3 hooks and
  at most 2 CTAs, each drawn from the catalog without taking any entry more often
  than the catalog holds it; at most 15 hashtags, no two of them equal; and at most
  3 sounds. And \<open>inject\<close> returns a bundle whenever every format of the catalog has
  its keywords.
\<close>

theorem C7_bundle_bounds:
  "(inject data entities g = Inr (bundle, g') \<longrightarrow>
      length (te_hooks bundle) \<le> 3
      \<and> mset (te_hooks bundle) \<subseteq># mset (get_or (cat_hooks data) [])
      \<and> length (te_ctas bundle) \<le> 2
      \<and> mset (te_ctas bundle) \<subseteq># mset (get_or (cat_cta data) [])
      \<and> length (te_hashtags bundle) \<le> 15 \<and> distinct (te_hashtags bundle)
      \<and> length (te_sound_suggestions bundle) \<le> 3)
   \<and> ((\<forall>f\<in>set (get_or (cat_formats data) []). fmt_keywords f \<noteq> None) \<longrightarrow>
      (\<exists>b r. inject data entities g = Inr (b, r)))"
proof (rule conjI; rule impI)
  assume a: "inject data entities g = Inr (bundle, g')"
  from inject_Inr[OF a] obtain g1 g2 where
    "te_hooks bundle = fst (get_hooks data entities g1)"
    "te_ctas bundle = fst (get_ctas data g2)"
    "te_hashtags bundle = get_hashtags data entities"
    "te_sound_suggestions bundle = get_sound_suggestions data"
    by blast
  then show "length (te_hooks bundle) \<le> 3
      \<and> mset (te_hooks bundle) \<subseteq># mset (get_or (cat_hooks data) [])
      \<and> length (te_ctas bundle) \<le> 2
      \<and> mset (te_ctas bundle) \<subseteq># mset (get_or (cat_cta data) [])
      \<and> length (te_hashtags bundle) \<le> 15 \<and> distinct (te_hashtags bundle)
      \<and> length (te_sound_suggestions bundle) \<le> 3"
    using get_hooks_props[of data entities g1] get_ctas_props[of data g2]
      get_hashtags_props[of data entities] get_sound_suggestions_props[of data]
    by simp
next
  assume "\<forall>f\<in>set (get_or (cat_formats data) []). fmt_keywords f \<noteq> None"
  then show "\<exists>b r. inject data entities g = Inr (b, r)"
    by (rule inject_returns)
qed

theorem C7_bundle_bounds_witness:
  "list_all (\<lambda>f. fmt_keywords f \<noteq> None) (get_or (cat_formats large_catalog) [])
   \<and> (\<exists>b r. inject large_catalog no_entities (\<lambda>i. i) = Inr (b, r)
     \<and> length (te_hooks b) \<le> 3
     \<and> mset (te_hooks b) \<subseteq># mset (get_or (cat_hooks large_catalog) [])
     \<and> length (te_ctas b) \<le> 2
     \<and> mset (te_ctas b) \<subseteq># mset (get_or (cat_cta large_catalog) [])
     \<and> length (te_hashtags b) \<le> 15 \<and> distinct (te_hashtags b)
     \<and> length (te_sound_suggestions b) \<le> 3)"
proof -
  have k: "\<forall>f\<in>set (get_or (cat_formats large_catalog) []). fmt_keywords f \<noteq> None"
    by (simp add: large_catalog_def fallback_formats_def get_or_def)
  with C7_bundle_bounds[of large_catalog no_entities "\<lambda>i. i"] obtain b r
    where e: "inject large_catalog no_entities (\<lambda>i. i) = Inr (b, r)"
    by blast
  from C7_bundle_bounds[of large_catalog no_entities "\<lambda>i. i" b r] e k show ?thesis
    unfolding list_all_iff by blast
qed

text \<open>
  C7 as the claim states it fails on a catalog that holds one hook twice: both
  copies are drawn, and the bundle's hooks repeat.
\<close>

theorem C7_repeated_hook:
  "(case inject (empty_catalog\<lparr>cat_hooks := Some [''Coba deh ini!'', ''Coba deh ini!'']\<rparr>)
           no_entities (\<lambda>i. 0) of
      Inl e \<Rightarrow> False
    | Inr (bundle, g') \<Rightarrow>
        te_hooks bundle = [''Coba deh ini!'', ''Coba deh ini!''] \<and> \<not> distinct (te_hooks bundle))"
  by (simp add: inject_def empty_catalog_def no_entities_def get_matching_format_def
      get_visual_style_def get_hooks_def get_ctas_def get_or_def entities_get_def
      randbelow_def numeral_2_eq_2)

subsection \<open>C8\<close>

text \<open>
  C8, on the input \<open>a <b> c\<close>: the whitespace is collapsed before the tag is taken
  out, and the two spaces around the tag stay in the sanitized text. The ends are
  trimmed last, so the sanitized text never starts or ends with white space
  (\<open>sanitize_trimmed\<close>).
\<close>

theorem C8_tag_leaves_double_space: "sanitize ''a <b> c'' = ''a  c''"
  by (simp add: sanitize_eval)

subsection \<open>C9\<close>

text \<open>
  C9, as the source has it. \<open>update_data\<close> gives every top-level key of the new data
  its new value as a whole and keeps the value of every other key, whether or not the
  write succeeds; it returns whether the write succeeded, and after a successful write
  the file holds the catalog that is in memory.
\<close>

theorem C9_update_is_shallow:
  "inj_data (snd (update_data self new_data outcome)) = dict_update (inj_data self) new_data
   \<and> fst (update_data self new_data outcome) = (outcome = WriteOk)
   \<and> inj_file (snd (update_data self new_data WriteOk))
       = Some (inj_data (snd (update_data self new_data WriteOk)))
   \<and> cat_hashtags (dict_update old_data new_data)
       = (if cat_hashtags new_data = None then cat_hashtags old_data else cat_hashtags new_data)
   \<and> cat_formats (dict_update old_data new_data)
       = (if cat_formats new_data = None then cat_formats old_data else cat_formats new_data)
   \<and> cat_visual_styles (dict_update old_data new_data)
       = (if cat_visual_styles new_data = None then cat_visual_styles old_data
          else cat_visual_styles new_data)
   \<and> cat_hooks (dict_update old_data new_data)
       = (if cat_hooks new_data = None then cat_hooks old_data else cat_hooks new_data)
   \<and> cat_cta (dict_update old_data new_data)
       = (if cat_cta new_data = None then cat_cta old_data else cat_cta new_data)
   \<and> cat_sounds (dict_update old_data new_data)
       = (if cat_sounds new_data = None then cat_sounds old_data else cat_sounds new_data)"
  by (cases outcome) (auto simp: update_data_def dict_update_def Let_def split: option.splits)

theorem C9_update_is_shallow_witness:
  "update_data
     \<lparr>inj_data = empty_catalog\<lparr>cat_hooks := Some [''h1''],
          cat_hashtags := Some [(''general'', [''#fyp'']), (''skincare'', [''#glow''])]\<rparr>,
      inj_file = None\<rparr>
     (empty_catalog\<lparr>cat_hashtags := Some [(''skincare'', [''#dewy''])]\<rparr>)
     WriteOk
   = (True,
      \<lparr>inj_data = empty_catalog\<lparr>cat_hooks := Some [''h1''],
           cat_hashtags := Some [(''skincare'', [''#dewy''])]\<rparr>,
       inj_file = Some (empty_catalog\<lparr>cat_hooks := Some [''h1''],
           cat_hashtags := Some [(''skincare'', [''#dewy''])]\<rparr>)\<rparr>)"
proof -
  let ?self = "\<lparr>inj_data = empty_catalog\<lparr>cat_hooks := Some [''h1''],
          cat_hashtags := Some [(''general'', [''#fyp'']), (''skincare'', [''#glow''])]\<rparr>,
      inj_file = None :: string catalog option\<rparr>"
  let ?new = "empty_catalog\<lparr>cat_hashtags := Some [(''skincare'', [''#dewy''])]\<rparr>"
  have d: "dict_update (inj_data ?self) ?new
      = empty_catalog\<lparr>cat_hooks := Some [''h1''], cat_hashtags := Some [(''skincare'', [''#dewy''])]\<rparr>"
    by (simp add: dict_update_def empty_catalog_def)
  from C9_update_is_shallow[of ?self ?new WriteOk] d
  have "inj_data (snd (update_data ?self ?new WriteOk))
          = empty_catalog\<lparr>cat_hooks := Some [''h1''], cat_hashtags := Some [(''skincare'', [''#dewy''])]\<rparr>"
    and "fst (update_data ?self ?new WriteOk) = True"
    and "inj_file (snd (update_data ?self ?new WriteOk))
          = Some (empty_catalog\<lparr>cat_hooks := Some [''h1''], cat_hashtags := Some [(''skincare'', [''#dewy''])]\<rparr>)"
    by simp_all
  then show ?thesis
    by (cases "update_data ?self ?new WriteOk") (auto intro: injector.equality)
qed

text \<open>
  C9 as the claim states it fails when the new data names one category of the
  hashtags mapping: the deep merge of the specification keeps the category
  \<open>general\<close>, and \<open>update_data\<close> drops it with the rest of the old mapping.
\<close>

theorem C9_hashtags_replaced_wholesale:
  "cat_hashtags (inj_data (snd (update_data
      \<lparr>inj_data = empty_catalog\<lparr>cat_hashtags :=
           Some [(''general'', [''#fyp'']), (''skincare'', [''#glow''])]\<rparr>,
       inj_file = None\<rparr>
      (empty_catalog\<lparr>cat_hashtags := Some [(''skincare'', [''#dewy''])]\<rparr>)
      WriteOk)))
     = Some [(''skincare'', [''#dewy''])]
   \<and> cat_hashtags (spec_deep_merge
      (empty_catalog\<lparr>cat_hashtags :=
           Some [(''general'', [''#fyp'']), (''skincare'', [''#glow''])]\<rparr>)
      (empty_catalog\<lparr>cat_hashtags := Some [(''skincare'', [''#dewy''])]\<rparr>))
     = Some [(''general'', [''#fyp'']), (''skincare'', [''#dewy''])]"
  by (simp add: update_data_def dict_update_def spec_deep_merge_def empty_catalog_def Let_def)

subsection \<open>C10\<close>

text \<open>
  C10, as the source has it. When the marker occurs and every line of its section is
  blank (or holds the marker again), the master prompt is the empty string. The master
  prompt is \<open>N/A\<close> on the empty response; on any other response it is
  \<open>N/A\<close> only if the response itself holds \<open>N/A\<close>.
\<close>

theorem C10_master_prompt_sentinel:
  "(contains raw ''MASTER PROMPT''
      \<and> (\<forall>l\<in>set (marker_section raw). strip l = [] \<or> contains l ''MASTER PROMPT'')
      \<longrightarrow> extract_master_prompt raw = Inr [])
   \<and> (extract_master_prompt raw = Inr ''N/A'' \<longrightarrow> raw = [] \<or> contains raw ''N/A'')
   \<and> extract_master_prompt [] = Inr ''N/A''"
proof (intro conjI impI)
  assume a: "contains raw ''MASTER PROMPT''
      \<and> (\<forall>l\<in>set (marker_section raw). strip l = [] \<or> contains l ''MASTER PROMPT'')"
  let ?lines = "split_on CHR 0x0A raw"
  have "master_prompt_loop ?lines False [] = []"
  proof (cases "dropWhile (\<lambda>line. \<not> contains line ''MASTER PROMPT'') ?lines")
    case Nil
    then show ?thesis by (simp only: master_prompt_loop_before list.case)
  next
    case (Cons m rest)
    then have "drop 1 (dropWhile (\<lambda>line. \<not> contains line ''MASTER PROMPT'') ?lines) = rest"
      by (simp only: drop_Suc_Cons drop_0 One_nat_def)
    with a have "\<forall>l\<in>set (takeWhile (\<lambda>line. contains line ''MASTER PROMPT'' \<or> \<not> ends_section line) rest).
      strip l = [] \<or> contains l ''MASTER PROMPT''"
      by (simp add: marker_section_def)
    from master_prompt_loop_in_section[OF this] Cons show ?thesis
      by (simp only: master_prompt_loop_before list.case)
  qed
  with a show "extract_master_prompt raw = Inr []"
    by (simp add: extract_master_prompt_def)
next
  assume r: "extract_master_prompt raw = Inr ''N/A''"
  let ?lines = "split_on CHR 0x0A raw"
  show "raw = [] \<or> contains raw ''N/A''"
  proof (cases "contains raw ''MASTER PROMPT''")
    case True
    with r have j: "join '' '' (master_prompt_loop ?lines False []) = ''N/A''"
      by (simp add: extract_master_prompt_def)
    from join_without_sep[OF j, of "CHR '' ''"]
    have "master_prompt_loop ?lines False [] = [] \<or> master_prompt_loop ?lines False [] = [''N/A'']"
      by simp
    with j have "''N/A'' \<in> set (master_prompt_loop ?lines False [])" by auto
    from master_prompt_loop_elems[OF this] obtain l where
      l: "l \<in> set ?lines" "''N/A'' = strip_chars [CHR 0x22] (strip l)" by auto
    have "contains ''N/A'' ''N/A''" by simp
    with l(2) have "contains (strip_chars [CHR 0x22] (strip l)) ''N/A''" by simp
    then have "contains l ''N/A''" by (blast dest: contains_strip_chars contains_strip)
    with l(1) have "contains raw ''N/A''" by (rule contains_line)
    then show ?thesis ..
  next
    case False
    show ?thesis
    proof (cases "raw = []")
      case True
      then show ?thesis ..
    next
      case ne: False
      obtain w ws where ws: "?lines = w # ws"
        using split_by_not_Nil[of "\<lambda>c. c = CHR 0x0A" raw]
        by (cases ?lines) (auto simp: split_on_def)
      with r False ne have "w = ''N/A''" by (simp add: extract_master_prompt_def)
      with ws have "''N/A'' \<in> set ?lines" by simp
      moreover have "contains ''N/A'' ''N/A''" by simp
      ultimately have "contains raw ''N/A''" by (rule contains_line)
      then show ?thesis ..
    qed
  qed
next
  show "extract_master_prompt [] = Inr ''N/A''"
    by (simp add: extract_master_prompt_def)
qed

theorem C10_master_prompt_sentinel_witness:
  "contains ''# MASTER PROMPT\<newline>  \<newline># VISUAL SPECIFICATIONS\<newline>| Style | Cinematic |'' ''MASTER PROMPT''
   \<and> marker_section ''# MASTER PROMPT\<newline>  \<newline># VISUAL SPECIFICATIONS\<newline>| Style | Cinematic |'' = [''  '']
   \<and> extract_master_prompt ''# MASTER PROMPT\<newline>  \<newline># VISUAL SPECIFICATIONS\<newline>| Style | Cinematic |'' = Inr []"
proof -
  let ?raw = "''# MASTER PROMPT\<newline>  \<newline># VISUAL SPECIFICATIONS\<newline>| Style | Cinematic |''"
  have c: "contains ?raw ''MASTER PROMPT''" by simp
  have m: "marker_section ?raw = [''  '']"
    by (simp add: marker_section_def ends_section_def split_on_def strip_def isspace_def)
  have "\<forall>l\<in>set (marker_section ?raw). strip l = [] \<or> contains l ''MASTER PROMPT''"
    unfolding m by (simp add: strip_def isspace_def)
  with C10_master_prompt_sentinel[of ?raw] c m show ?thesis by blast
qed

text \<open>
  C10 as the claim states it fails on responses that supply the sentinel themselves:
  the response \<open>N/A\<close> is not empty, and a response with the marker followed by the
  line \<open>N/A\<close> holds the marker, yet the master prompt of both is \<open>N/A\<close>.
\<close>

theorem C10_sentinel_from_text:
  "extract_master_prompt ''N/A'' = Inr ''N/A'' \<and> ''N/A'' \<noteq> []
   \<and> extract_master_prompt ''# MASTER PROMPT\<newline>N/A'' = Inr ''N/A''
   \<and> contains ''# MASTER PROMPT\<newline>N/A'' ''MASTER PROMPT''"
  by (simp add: extract_master_prompt_def split_on_def strip_def strip_chars_def isspace_def)

end
